theory Spec2Isabelle
  imports Main "HOL-Library.Word" "HOL-Library.Char_ord" "HOL-Library.List_Lexorder"
begin

section \<open>Python values shared by both programs\<close>

text \<open>
  Exceptions are values. Every operation of the source that can raise returns
  \<open>py_exc + 'a\<close>, with \<open>Inl\<close> the exception, and every \<open>try/except\<close> of the
  source is a case distinction on that sum.
\<close>

datatype py_exc =
    ValueError
  | ZeroDivisionError
  | OverflowError
  | FileExistsError
  | FileNotFoundError
  | NotADirectoryError
  | OSError
  | UnidentifiedImageError

text \<open>
  A Python \<open>str\<close> is modelled as a \<open>string\<close> whose characters are the code points
  below 256. \<open>is_space\<close> is \<open>str.isspace\<close> on that range, the set \<open>str.strip()\<close>
  removes: tab to carriage return, the four separators 0x1C to 0x1F, the space, NEL
  and the no-break space.
\<close>

definition is_space :: "char \<Rightarrow> bool" where
  "is_space c =
     (let n = (of_char c :: nat)
      in (9 \<le> n \<and> n \<le> 13) \<or> (28 \<le> n \<and> n \<le> 32) \<or> n = 133 \<or> n = 160)"

definition strip :: "string \<Rightarrow> string" where
  "strip s = rev (dropWhile is_space (rev (dropWhile is_space s)))"

text \<open>\<open>s.split(sep)\<close> for a separator of one character: never the empty list.\<close>

fun split_on :: "char \<Rightarrow> string \<Rightarrow> string list" where
  "split_on c [] = [[]]"
| "split_on c (x # xs) =
     (if x = c then [] # split_on c xs
      else (case split_on c xs of
              [] \<Rightarrow> [[x]]
            | p # ps \<Rightarrow> (x # p) # ps))"

definition replace_char :: "char \<Rightarrow> char \<Rightarrow> string \<Rightarrow> string" where
  "replace_char a b s = map (\<lambda>c. if c = a then b else c) s"

section \<open>Preset placement\<close>

subsection \<open>\<open>compute_position\<close> of the command-line tool\<close>

text \<open>
  Python's integers are unbounded, hence \<open>int\<close>; \<open>//\<close> is floor division, which is
  \<open>div\<close> on \<open>int\<close>. Any position string other than the four corner keys takes the
  last branch, the centre.
\<close>

definition compute_position :: "int \<times> int \<Rightarrow> int \<times> int \<Rightarrow> string \<Rightarrow> int \<Rightarrow> int \<times> int" where
  "compute_position img_size text_size position margin =
     (case img_size of (img_w, img_h) \<Rightarrow>
      case text_size of (text_w, text_h) \<Rightarrow>
        if position = ''tl'' then (margin, margin)
        else if position = ''tr'' then (img_w - text_w - margin, margin)
        else if position = ''bl'' then (margin, img_h - text_h - margin)
        else if position = ''br'' then (img_w - text_w - margin, img_h - text_h - margin)
        else ((img_w - text_w) div 2, (img_h - text_h) div 2))"

subsection \<open>\<open>WATERMARK_POSITIONS\<close> of the graphical tool\<close>

text \<open>
  The dictionary maps a key to a label and a function of
  \<open>(img_w, img_h, w, h, m)\<close>; only the function is modelled.
\<close>

type_synonym pos_func = "int \<Rightarrow> int \<Rightarrow> int \<Rightarrow> int \<Rightarrow> int \<Rightarrow> int \<times> int"

definition WATERMARK_POSITIONS :: "string \<rightharpoonup> pos_func" where
  "WATERMARK_POSITIONS =
     [ ''tl'' \<mapsto> (\<lambda>img_w img_h w h m. (m, m)),
       ''tr'' \<mapsto> (\<lambda>img_w img_h w h m. (img_w - w - m, m)),
       ''bl'' \<mapsto> (\<lambda>img_w img_h w h m. (m, img_h - h - m)),
       ''br'' \<mapsto> (\<lambda>img_w img_h w h m. (img_w - w - m, img_h - h - m)),
       ''center'' \<mapsto> (\<lambda>img_w img_h w h m. ((img_w - w) div 2, (img_h - h) div 2)) ]"

section \<open>\<open>int(s)\<close> on a string\<close>

text \<open>
  \<open>int(s)\<close> removes surrounding white space (for \<open>int\<close> that is tab to carriage
  return, the space, NEL and the no-break space, but not 0x1C to 0x1F), accepts one
  sign, and then wants decimal digits, single underscores allowed between two digits.
  Anything else is a \<open>ValueError\<close>.
\<close>

definition is_int_space :: "char \<Rightarrow> bool" where
  "is_int_space c =
     (let n = (of_char c :: nat)
      in (9 \<le> n \<and> n \<le> 13) \<or> n = 32 \<or> n = 133 \<or> n = 160)"

definition is_digit :: "char \<Rightarrow> bool" where
  "is_digit c = (let n = (of_char c :: nat) in 48 \<le> n \<and> n \<le> 57)"

fun digits_ok :: "string \<Rightarrow> bool" where
  "digits_ok [] = False"
| "digits_ok [c] = is_digit c"
| "digits_ok (c # d # r) =
     (is_digit c \<and> (if d = CHR ''_'' then digits_ok r else digits_ok (d # r)))"

definition digits_value :: "string \<Rightarrow> int" where
  "digits_value s =
     foldl (\<lambda>a c. 10 * a + (int (of_char c) - 48)) 0 (filter (\<lambda>c. c \<noteq> CHR ''_'') s)"

definition py_int :: "string \<Rightarrow> py_exc + int" where
  "py_int s =
     (let t = rev (dropWhile is_int_space (rev (dropWhile is_int_space s)));
          neg = (t \<noteq> [] \<and> hd t = CHR ''-'');
          d = (if t \<noteq> [] \<and> (hd t = CHR ''-'' \<or> hd t = CHR ''+'') then tl t else t)
      in if digits_ok d then Inr (if neg then - digits_value d else digits_value d)
         else Inl ValueError)"

section \<open>The graphical tool: state and floating point\<close>

text \<open>
  The widgets and attributes of \<open>WatermarkApp\<close> that the modelled methods read or
  write. Sliders, spin boxes and label sizes are the integers Qt returns.
\<close>

record app =
  last_position :: string
  preview_label_width :: int
  preview_label_height :: int
  margin_spin :: int
  watermark_image_path :: string
  watermark_image_size_slider :: int
  watermark_image_opacity_slider :: int
  output_format_combo :: string
  keep_name_radio :: bool
  add_prefix_radio :: bool
  add_suffix_radio :: bool
  prefix_edit :: string
  suffix_edit :: string

text \<open>
  The interpreter's double-precision arithmetic is not modelled bit by bit: it is a
  parameter. \<open>true_div a b\<close> is \<open>a / b\<close> for integers with \<open>b \<noteq> 0\<close> (the model raises
  \<open>ZeroDivisionError\<close> itself when \<open>b = 0\<close>) and \<open>mul_trunc i f\<close> is \<open>int(i * f)\<close>;
  either may raise, for instance \<open>OverflowError\<close>. The results below hold for every
  such arithmetic.
\<close>

record 'f float_ops =
  true_div :: "int \<Rightarrow> int \<Rightarrow> py_exc + 'f"
  mul_trunc :: "int \<Rightarrow> 'f \<Rightarrow> py_exc + int"

definition py_true_div :: "'f float_ops \<Rightarrow> int \<Rightarrow> int \<Rightarrow> py_exc + 'f" where
  "py_true_div fl a b = (if b = 0 then Inl ZeroDivisionError else true_div fl a b)"

section \<open>Custom placement: \<open>_calculate_watermark_position\<close>\<close>

text \<open>
  The body of the \<open>try\<close> block, in the order of the source: unpack the three pieces of
  the tag, read the preview size, divide, parse and scale each coordinate, clamp.
  Unpacking anything but three pieces is a \<open>ValueError\<close>.
\<close>

definition custom_position ::
  "'f float_ops \<Rightarrow> app \<Rightarrow> int \<Rightarrow> int \<Rightarrow> int \<Rightarrow> int \<Rightarrow> py_exc + int \<times> int" where
  "custom_position fl a img_width img_height wm_width wm_height =
     (case split_on CHR ''_'' (last_position a) of
        [u, preview_x, preview_y] \<Rightarrow>
          (case py_true_div fl img_width (preview_label_width a) of
             Inl e \<Rightarrow> Inl e
           | Inr scale_x \<Rightarrow>
          (case py_true_div fl img_height (preview_label_height a) of
             Inl e \<Rightarrow> Inl e
           | Inr scale_y \<Rightarrow>
          (case py_int preview_x of
             Inl e \<Rightarrow> Inl e
           | Inr px \<Rightarrow>
          (case mul_trunc fl px scale_x of
             Inl e \<Rightarrow> Inl e
           | Inr x \<Rightarrow>
          (case py_int preview_y of
             Inl e \<Rightarrow> Inl e
           | Inr py \<Rightarrow>
          (case mul_trunc fl py scale_y of
             Inl e \<Rightarrow> Inl e
           | Inr y \<Rightarrow>
               Inr (max 0 (min x (img_width - wm_width)),
                    max 0 (min y (img_height - wm_height)))))))))
      | _ \<Rightarrow> Inl ValueError)"

text \<open>
  The method returns the position and the state, whose \<open>last_position\<close> the bare
  \<open>except\<close> resets to \<open>'br'\<close>. After the \<open>try\<close> statement nothing can raise: the
  dictionary is read only under its own membership test.
\<close>

definition calculate_watermark_position ::
  "'f float_ops \<Rightarrow> app \<Rightarrow> int \<Rightarrow> int \<Rightarrow> int \<Rightarrow> int \<Rightarrow> int \<Rightarrow> (int \<times> int) \<times> app" where
  "calculate_watermark_position fl a img_width img_height wm_width wm_height margin =
     (let preset = (\<lambda>a'.
            (case WATERMARK_POSITIONS (last_position a') of
               Some pos_func \<Rightarrow> (pos_func img_width img_height wm_width wm_height margin, a')
             | None \<Rightarrow>
                 ((img_width - wm_width - margin, img_height - wm_height - margin), a')))
      in if take 7 (last_position a) = ''custom_'' then
           (case custom_position fl a img_width img_height wm_width wm_height of
              Inr xy \<Rightarrow> (xy, a)
            | Inl e \<Rightarrow> preset (a\<lparr>last_position := ''br''\<rparr>))
         else preset a)"

subsection \<open>Example inputs\<close>

text \<open>
  The state of a window opened without a saved configuration, and an arithmetic for
  the examples: where a division comes out even, the double quotient is the integer
  quotient and \<open>int(i * f)\<close> is the integer product.
\<close>

definition initial_app :: app where
  "initial_app =
     \<lparr>last_position = ''br'', preview_label_width = 400, preview_label_height = 300,
      margin_spin = 12, watermark_image_path = '''', watermark_image_size_slider = 50,
      watermark_image_opacity_slider = 100, output_format_combo = ''JPEG (*.jpg)'',
      keep_name_radio = True, add_prefix_radio = False, add_suffix_radio = False,
      prefix_edit = ''wm_'', suffix_edit = ''_watermarked''\<rparr>"

definition exact_ops :: "int float_ops" where
  "exact_ops = \<lparr>true_div = (\<lambda>a b. Inr (a div b)), mul_trunc = (\<lambda>i f. Inr (i * f))\<rparr>"

section \<open>The command-line tool: library interface\<close>

text \<open>
  A path is the list of its components, as \<open>pathlib\<close> keeps it; \<open>parent\<close> drops the
  last component and \<open>name\<close> is the last component (empty for a path with none).
\<close>

type_synonym path = "string list"

definition parent :: "path \<Rightarrow> path" where
  "parent p = butlast p"

definition name :: "path \<Rightarrow> string" where
  "name p = (if p = [] then [] else last p)"

text \<open>\<open>WatermarkOptions\<close>, the dataclass of the tool.\<close>

record WatermarkOptions =
  font_size :: int
  color :: string
  position :: string
  margin :: int
  font_path :: "path option"

text \<open>
  The value of an EXIF tag as Pillow hands it over: text, bytes, a number, or a tuple
  of numbers. \<open>truthy\<close> is Python's truth value of it. The EXIF block is a finite
  mapping from tag numbers, kept as an association list; it is false when empty.
\<close>

type_synonym bytes = "8 word list"

datatype exif_value = VStr string | VBytes bytes | VInt int | VTuple "int list"

fun truthy :: "exif_value \<Rightarrow> bool" where
  "truthy (VStr s) = (s \<noteq> [])"
| "truthy (VBytes b) = (b \<noteq> [])"
| "truthy (VInt n) = (n \<noteq> 0)"
| "truthy (VTuple xs) = (xs \<noteq> [])"

type_synonym exif = "(int \<times> exif_value) list"

text \<open>
  What the tool calls in Pillow and the standard library, as parameters over an
  abstract image type: \<open>Image.open\<close>, \<open>Image.getexif\<close>, \<open>bytes.decode("utf-8",
  errors="ignore")\<close>, \<open>datetime.strptime\<close> (only whether it raises matters: its
  value is dropped), the drawing of \<open>draw_watermark\<close>, and \<open>Image.save\<close> with its
  optional \<open>(quality, subsampling)\<close> parameters.
\<close>

record 'img pil =
  image_open :: "path \<Rightarrow> py_exc + 'img"
  getexif :: "'img \<Rightarrow> py_exc + exif"
  decode_utf8_ignore :: "bytes \<Rightarrow> py_exc + string"
  strptime :: "string \<Rightarrow> string \<Rightarrow> py_exc + unit"
  draw_watermark :: "'img \<Rightarrow> string \<Rightarrow> WatermarkOptions \<Rightarrow> py_exc + 'img"
  image_save :: "'img \<Rightarrow> path \<Rightarrow> (int \<times> int) option \<Rightarrow> py_exc + unit"

section \<open>\<open>extract_exif_date\<close>\<close>

definition EXIF_TAG_DATETIME :: int where
  "EXIF_TAG_DATETIME = 306"

definition EXIF_TAG_DATETIME_ORIGINAL :: int where
  "EXIF_TAG_DATETIME_ORIGINAL = 36867"

definition EXIF_TAG_DATETIME_DIGITIZED :: int where
  "EXIF_TAG_DATETIME_DIGITIZED = 36868"

text \<open>
  The part of the loop body that handles a \<open>str\<close>: \<open>None\<close> stands for \<open>continue\<close>,
  \<open>Some d\<close> for \<open>return d\<close>. The validation by \<open>strptime\<close> sits in a \<open>try\<close> whose
  handler is \<open>pass\<close>, so both of its outcomes go on to the same \<open>return\<close>.
\<close>

definition date_of_str :: "'img pil \<Rightarrow> string \<Rightarrow> string option" where
  "date_of_str lib v =
     (let parts = split_on CHR '' '' (strip v)
      in case parts of
           [] \<Rightarrow> None
         | p0 # rest \<Rightarrow>
             (let date_str = replace_char CHR '':'' CHR ''-'' p0
              in case (if CHR '':'' \<in> set p0
                       then strptime lib p0
                              (if length parts = 1 then ''%Y:%m:%d%H:%M:%S'' else ''%Y:%m:%d'')
                       else strptime lib date_str ''%Y-%m-%d'') of
                   Inl e \<Rightarrow> Some date_str
                 | Inr u \<Rightarrow> Some date_str))"

text \<open>The \<open>for\<close> loop over the three tags.\<close>

fun scan_tags :: "'img pil \<Rightarrow> exif \<Rightarrow> int list \<Rightarrow> string option" where
  "scan_tags lib ex [] = None"
| "scan_tags lib ex (tag # tags) =
     (case map_of ex tag of
        None \<Rightarrow> scan_tags lib ex tags
      | Some v \<Rightarrow>
          if \<not> truthy v then scan_tags lib ex tags
          else (case v of
                  VBytes b \<Rightarrow>
                    (case decode_utf8_ignore lib b of
                       Inl e \<Rightarrow> scan_tags lib ex tags
                     | Inr s \<Rightarrow>
                         (case date_of_str lib s of
                            None \<Rightarrow> scan_tags lib ex tags
                          | Some d \<Rightarrow> Some d))
                | VStr s \<Rightarrow>
                    (case date_of_str lib s of
                       None \<Rightarrow> scan_tags lib ex tags
                     | Some d \<Rightarrow> Some d)
                | VInt n \<Rightarrow> scan_tags lib ex tags
                | VTuple xs \<Rightarrow> scan_tags lib ex tags))"

definition extract_exif_date :: "'img pil \<Rightarrow> 'img \<Rightarrow> string option" where
  "extract_exif_date lib im =
     (case getexif lib im of
        Inl e \<Rightarrow> None
      | Inr ex \<Rightarrow>
          if ex = [] then None
          else scan_tags lib ex
                 [EXIF_TAG_DATETIME_ORIGINAL, EXIF_TAG_DATETIME_DIGITIZED, EXIF_TAG_DATETIME])"

subsection \<open>The two ways the loop body ends for a tag\<close>

text \<open>
  Notation for the statements about the loop. \<open>tag_skipped\<close>: the body reaches
  \<open>continue\<close> or falls through to the next tag, because the value is absent or false,
  is a number or a tuple, or is bytes whose decoding raises. \<open>tag_text\<close>: the body
  reaches \<open>return\<close> with the text \<open>s\<close>, a non-empty string or the decoding of
  non-empty bytes.
\<close>

abbreviation tag_skipped :: "'img pil \<Rightarrow> exif \<Rightarrow> int \<Rightarrow> bool" where
  "tag_skipped lib ex t \<equiv>
     map_of ex t = None
     \<or> (\<exists>v. map_of ex t = Some v \<and> \<not> truthy v)
     \<or> (\<exists>n. map_of ex t = Some (VInt n))
     \<or> (\<exists>xs. map_of ex t = Some (VTuple xs))
     \<or> (\<exists>b e. map_of ex t = Some (VBytes b) \<and> decode_utf8_ignore lib b = Inl e)"

abbreviation tag_text :: "'img pil \<Rightarrow> exif \<Rightarrow> int \<Rightarrow> string \<Rightarrow> bool" where
  "tag_text lib ex t s \<equiv>
     (map_of ex t = Some (VStr s) \<and> s \<noteq> [])
     \<or> (\<exists>b. map_of ex t = Some (VBytes b) \<and> b \<noteq> [] \<and> decode_utf8_ignore lib b = Inr s)"

subsection \<open>The date as the specification words it, and an example library\<close>

text \<open>
  The first white-space-delimited token of a value (what \<open>value.split()[0]\<close> would
  give), colons replaced by hyphens: the wording of the specification, for comparison
  with \<open>date_of_str\<close>.
\<close>

definition spec_first_token_date :: "string \<Rightarrow> string" where
  "spec_first_token_date v =
     replace_char CHR '':'' CHR ''-''
       (takeWhile (\<lambda>c. \<not> is_space c) (dropWhile is_space v))"

text \<open>
  A library for the examples: the image is its EXIF block, bytes below 128 decode to
  themselves, and \<open>strptime\<close> rejects everything.
\<close>

definition example_pil :: "exif pil" where
  "example_pil =
     \<lparr>image_open = (\<lambda>p. Inl FileNotFoundError),
      getexif = (\<lambda>ex. Inr ex),
      decode_utf8_ignore = (\<lambda>b. Inr (map (\<lambda>w. char_of (unat w)) (filter (\<lambda>w. w < 128) b))),
      strptime = (\<lambda>s f. Inl ValueError),
      draw_watermark = (\<lambda>im t opts. Inr im),
      image_save = (\<lambda>im p params. Inr ())\<rparr>"

section \<open>File names\<close>

text \<open>
  \<open>str.lower()\<close> on the code points below 256: the letters A to Z and the accented
  capitals 0xC0 to 0xDE, the multiplication sign 0xD7 apart, move up by 32.
\<close>

definition lower_char :: "char \<Rightarrow> char" where
  "lower_char c =
     (let n = (of_char c :: nat)
      in if (65 \<le> n \<and> n \<le> 90) \<or> (192 \<le> n \<and> n \<le> 222 \<and> n \<noteq> 215)
         then char_of (n + 32) else c)"

definition lower :: "string \<Rightarrow> string" where
  "lower s = map lower_char s"

text \<open>\<open>sub in s\<close> for strings, and \<open>s.rfind(c)\<close> for one character (\<open>-1\<close> when absent).\<close>

fun contains :: "string \<Rightarrow> string \<Rightarrow> bool" where
  "contains sub [] = (sub = [])"
| "contains sub (x # xs) = (take (length sub) (x # xs) = sub \<or> contains sub xs)"

definition rfind :: "char \<Rightarrow> string \<Rightarrow> int" where
  "rfind c s =
     (if c \<in> set s
      then int (length s) - 1 - int (length (takeWhile (\<lambda>x. x \<noteq> c) (rev s)))
      else - 1)"

text \<open>
  \<open>Path.suffix\<close> and \<open>Path.stem\<close> of \<open>pathlib\<close>: the name is cut at its last dot,
  unless that dot is the first or the last character of the name.
\<close>

definition suffix :: "path \<Rightarrow> string" where
  "suffix p =
     (let nm = name p; i = rfind CHR ''.'' nm
      in if 0 < i \<and> i < int (length nm) - 1 then drop (nat i) nm else [])"

definition stem :: "path \<Rightarrow> string" where
  "stem p =
     (let nm = name p; i = rfind CHR ''.'' nm
      in if 0 < i \<and> i < int (length nm) - 1 then take (nat i) nm else nm)"

subsection \<open>\<open>_get_output_filename\<close> of the graphical tool\<close>

text \<open>
  The three naming boxes are check boxes, read in the order of the \<open>if/elif\<close> chain.
  \<open>original_ext\<close> is computed and never used.
\<close>

definition get_output_filename :: "app \<Rightarrow> path \<Rightarrow> string" where
  "get_output_filename a image_path =
     (let original_name = stem image_path;
          original_ext = lower (suffix image_path);
          output_format = output_format_combo a;
          ext = (if contains ''PNG'' output_format then ''.png'' else ''.jpg'')
      in if keep_name_radio a then original_name @ ext
         else if add_prefix_radio a then prefix_edit a @ original_name @ ext
         else if add_suffix_radio a then original_name @ suffix_edit a @ ext
         else original_name @ ext)"

section \<open>The command-line tool: file system and batch\<close>

text \<open>
  The file system is a finite table from paths to what is there: a regular file, a
  directory, or something else (a socket, a device). The empty path, the base all
  paths start from, is always a directory. The first entry for a path counts.
\<close>

datatype node = File | Dir | Other

type_synonym fs = "(path \<times> node) list"

definition node_at :: "fs \<Rightarrow> path \<Rightarrow> node option" where
  "node_at fs p = (if p = [] then Some Dir else map_of fs p)"

definition exists_path :: "fs \<Rightarrow> path \<Rightarrow> bool" where
  "exists_path fs p = (node_at fs p \<noteq> None)"

definition is_file :: "fs \<Rightarrow> path \<Rightarrow> bool" where
  "is_file fs p = (node_at fs p = Some File)"

definition is_dir :: "fs \<Rightarrow> path \<Rightarrow> bool" where
  "is_dir fs p = (node_at fs p = Some Dir)"

text \<open>\<open>Path.iterdir\<close>: the entries whose parent is the directory, each once.\<close>

definition iterdir :: "fs \<Rightarrow> path \<Rightarrow> path list" where
  "iterdir fs p = filter (\<lambda>q. q \<noteq> [] \<and> parent q = p) (remdups (map fst fs))"

subsection \<open>\<open>iter_image_files\<close>\<close>

definition SUPPORTED_EXTENSIONS :: "string list" where
  "SUPPORTED_EXTENSIONS = [''.jpg'', ''.jpeg'', ''.png'', ''.tif'', ''.tiff'', ''.webp'']"

text \<open>
  The generator, as the list of what it yields. \<open>sorted\<close> orders paths component by
  component and a component by code points, which is the lexicographic order on lists.
\<close>

definition iter_image_files :: "fs \<Rightarrow> path \<Rightarrow> path list" where
  "iter_image_files fs p =
     (if is_file fs p then
        (if lower (suffix p) \<in> set SUPPORTED_EXTENSIONS then [p] else [])
      else if is_dir fs p then
        filter (\<lambda>q. is_file fs q \<and> lower (suffix q) \<in> set SUPPORTED_EXTENSIONS)
          (sort (iterdir fs p))
      else [])"

subsection \<open>\<open>ensure_output_dir\<close>\<close>

text \<open>
  \<open>os.mkdir\<close>, then \<open>Path.mkdir(parents, exist_ok)\<close> as \<open>pathlib\<close> writes it: a missing
  parent is created first when \<open>parents\<close> is set, and any other error is dropped only
  if \<open>exist_ok\<close> is set and the path is a directory.
\<close>

definition os_mkdir :: "fs \<Rightarrow> path \<Rightarrow> py_exc + fs" where
  "os_mkdir fs p =
     (if exists_path fs p then Inl FileExistsError
      else (case node_at fs (parent p) of
              None \<Rightarrow> Inl FileNotFoundError
            | Some Dir \<Rightarrow> Inr ((p, Dir) # fs)
            | Some n \<Rightarrow> Inl NotADirectoryError))"

function mkdir :: "fs \<Rightarrow> path \<Rightarrow> bool \<Rightarrow> bool \<Rightarrow> py_exc + fs" where
  "mkdir fs p parents exist_ok =
     (case os_mkdir fs p of
        Inr fs' \<Rightarrow> Inr fs'
      | Inl e \<Rightarrow>
          if e = FileNotFoundError then
            (if \<not> parents \<or> parent p = p then Inl e
             else (case mkdir fs (parent p) True True of
                     Inl e' \<Rightarrow> Inl e'
                   | Inr fs' \<Rightarrow> mkdir fs' p False exist_ok))
          else if \<not> exist_ok \<or> \<not> is_dir fs p then Inl e
          else Inr fs)"
  by pat_completeness auto
termination
  by (relation "measures [\<lambda>(fs, p, parents, exist_ok). length p,
                          \<lambda>(fs, p, parents, exist_ok). if parents then 1 else 0]")
     (auto simp: parent_def intro: diff_less)

definition ensure_output_dir :: "fs \<Rightarrow> path \<Rightarrow> py_exc + path \<times> fs" where
  "ensure_output_dir fs base =
     (let parent_dir = (if is_file fs base then parent base else base);
          out_dir = parent_dir @ [name parent_dir @ ''_watermark'']
      in case mkdir fs out_dir True True of
           Inl e \<Rightarrow> Inl e
         | Inr fs' \<Rightarrow> Inr (out_dir, fs'))"

subsection \<open>\<open>process_image_file\<close> and \<open>main\<close>\<close>

text \<open>
  The lines the tool prints. \<open>process_image_file\<close> returns nothing and catches every
  exception of its body, so its model is the line it prints; \<open>not date_text\<close> holds for
  \<open>None\<close> and for the empty string.
\<close>

datatype line =
    InputMissing path
  | NoSupportedFiles
  | SKIP path
  | OK path path
  | ERROR path py_exc

definition process_image_file :: "'img pil \<Rightarrow> path \<Rightarrow> WatermarkOptions \<Rightarrow> path \<Rightarrow> line" where
  "process_image_file lib image_path options out_dir =
     (case image_open lib image_path of
        Inl e \<Rightarrow> ERROR image_path e
      | Inr im \<Rightarrow>
          (case extract_exif_date lib im of
             None \<Rightarrow> SKIP image_path
           | Some date_text \<Rightarrow>
               if date_text = [] then SKIP image_path
               else (case draw_watermark lib im date_text options of
                       Inl e \<Rightarrow> ERROR image_path e
                     | Inr watermarked \<Rightarrow>
                         (let out_path = out_dir @ [name image_path];
                              save_params =
                                (if lower (suffix out_path) \<in> {''.jpg'', ''.jpeg''}
                                 then Some (95, 2) else None)
                          in case image_save lib watermarked out_path save_params of
                               Inl e \<Rightarrow> ERROR image_path e
                             | Inr u \<Rightarrow> OK image_path out_path))))"

text \<open>
  \<open>main\<close> after \<open>parse_args\<close>: the exit code or the exception that leaves it, the lines
  printed, and the file system with the output directory made and the saved files in it.
\<close>

definition written :: "line list \<Rightarrow> path list" where
  "written ls = concat (map (\<lambda>l. case l of OK f out \<Rightarrow> [out] | _ \<Rightarrow> []) ls)"

definition main :: "'img pil \<Rightarrow> fs \<Rightarrow> path \<Rightarrow> WatermarkOptions \<Rightarrow> (py_exc + int) \<times> line list \<times> fs" where
  "main lib fs input_path options =
     (if \<not> exists_path fs input_path then (Inr 1, [InputMissing input_path], fs)
      else (let files = iter_image_files fs input_path
            in if files = [] then (Inr 1, [NoSupportedFiles], fs)
               else (case ensure_output_dir fs
                            (if is_dir fs input_path then input_path else parent input_path) of
                       Inl e \<Rightarrow> (Inl e, [], fs)
                     | Inr (out_dir, fs') \<Rightarrow>
                         (let ls = map (\<lambda>f. process_image_file lib f options out_dir) files
                          in (Inr 0, ls, map (\<lambda>p. (p, File)) (rev (written ls)) @ fs')))))"

subsection \<open>The output directory as the specification words it, and example inputs\<close>

text \<open>
  A sibling of the source directory: the same parent, the name of the source directory
  followed by \<open>_watermark\<close>. For comparison with \<open>ensure_output_dir\<close>.
\<close>

definition spec_sibling_dir :: "path \<Rightarrow> path" where
  "spec_sibling_dir src = parent src @ [name src @ ''_watermark'']"

definition default_options :: WatermarkOptions where
  "default_options =
     \<lparr>font_size = 36, color = ''#FFFFFF'', position = ''br'', margin = 12, font_path = None\<rparr>"

text \<open>
  A library in which every file opens to an image dated 2023:11:05, except \<open>bad.jpg\<close>
  which does not open and \<open>plain.png\<close> which has no EXIF block.
\<close>

definition batch_pil :: "exif pil" where
  "batch_pil =
     example_pil\<lparr>image_open := (\<lambda>p.
        if name p = ''bad.jpg'' then Inl UnidentifiedImageError
        else if name p = ''plain.png'' then Inr []
        else Inr [(EXIF_TAG_DATETIME, VStr ''2023:11:05 14:22:10'')])\<rparr>"

definition trip_fs :: fs where
  "trip_fs =
     [([''photos''], Dir),
      ([''photos'', ''trip''], Dir),
      ([''photos'', ''trip'', ''b.JPG''], File),
      ([''photos'', ''trip'', ''a.jpg''], File),
      ([''photos'', ''trip'', ''bad.jpg''], File),
      ([''photos'', ''trip'', ''plain.png''], File),
      ([''photos'', ''trip'', ''notes.txt''], File),
      ([''photos'', ''trip'', ''sub.jpg''], Dir),
      ([''photos'', ''trip'', ''sub.jpg'', ''deep.jpg''], File)]"

definition blocked_fs :: fs where
  "blocked_fs =
     [([''pics''], Dir),
      ([''pics'', ''a.jpg''], File),
      ([''pics'', ''pics_watermark''], File)]"

section \<open>The graphical tool: image watermark\<close>

text \<open>
  A raster as Pillow's core keeps it: the mode, the size, and the rows of pixels. A
  pixel is four 8-bit samples; in mode \<open>RGBA\<close> they are red, green, blue and alpha.
  \<open>wf_raster\<close> says that the rows fill the size.
\<close>

type_synonym pixel = "8 word \<times> 8 word \<times> 8 word \<times> 8 word"





subsection \<open>Pillow's \<open>paste\<close>\<close>

text \<open>
  \<open>out.paste(im, (x, y))\<close> copies \<open>im\<close> over the part of \<open>out\<close> that the box
  \<open>(x, y, x + im.width, y + im.height)\<close> covers; the part of the box outside \<open>out\<close> is
  clipped. With an \<open>RGBA\<close> mask, each of the four samples is blended by the mask's
  alpha with the macros of Pillow's core:
  \<open>DIV255(a) = (tmp = a + 128, ((tmp >> 8) + tmp) >> 8)\<close> and
  \<open>BLEND8(mask, in1, in2) = DIV255(in1 * (255 - mask) + in2 * mask)\<close>, computed in
  machine integers wide enough not to wrap.
\<close>

definition DIV255 :: "nat \<Rightarrow> nat" where
  "DIV255 a = (let tmp = a + 128 in (tmp div 256 + tmp) div 256)"

definition BLEND8 :: "8 word \<Rightarrow> 8 word \<Rightarrow> 8 word \<Rightarrow> 8 word" where
  "BLEND8 m in1 in2 = of_nat (DIV255 (unat in1 * (255 - unat m) + unat in2 * unat m))"

fun blend_pixel :: "8 word \<Rightarrow> pixel \<Rightarrow> pixel \<Rightarrow> pixel" where
  "blend_pixel m (r1, g1, b1, a1) (r2, g2, b2, a2) =
     (BLEND8 m r1 r2, BLEND8 m g1 g2, BLEND8 m b1 b2, BLEND8 m a1 a2)"






subsection \<open>The opacity of the overlay\<close>






subsection \<open>\<open>_apply_image_watermark\<close>\<close>




subsection \<open>Example rasters\<close>




section \<open>Results\<close>

text \<open>
  C1 (command-line tool). For every image size \<open>(W, H)\<close>, watermark size \<open>(w, h)\<close> and
  margin \<open>m\<close>, \<open>compute_position\<close> returns the anchor formulas: top-left \<open>(m, m)\<close>,
  top-right \<open>(W - w - m, m)\<close>, bottom-left \<open>(m, H - h - m)\<close>, bottom-right
  \<open>(W - w - m, H - h - m)\<close> and centre \<open>((W - w) div 2, (H - h) div 2)\<close> with floor
  division; the dictionary \<open>WATERMARK_POSITIONS\<close> of the graphical tool holds the same five
  formulas; and \<open>800 \<times> 600\<close> with a \<open>100 \<times> 40\<close> watermark and margin 12 at
  bottom-right is \<open>(688, 548)\<close>.
\<close>

theorem C1_preset_anchor_formulas:
  "compute_position (W, H) (w, h) ''tl'' m = (m, m)
   \<and> compute_position (W, H) (w, h) ''tr'' m = (W - w - m, m)
   \<and> compute_position (W, H) (w, h) ''bl'' m = (m, H - h - m)
   \<and> compute_position (W, H) (w, h) ''br'' m = (W - w - m, H - h - m)
   \<and> compute_position (W, H) (w, h) ''center'' m = ((W - w) div 2, (H - h) div 2)
   \<and> map_option (\<lambda>f. f W H w h m) (WATERMARK_POSITIONS ''tl'') = Some (m, m)
   \<and> map_option (\<lambda>f. f W H w h m) (WATERMARK_POSITIONS ''tr'') = Some (W - w - m, m)
   \<and> map_option (\<lambda>f. f W H w h m) (WATERMARK_POSITIONS ''bl'') = Some (m, H - h - m)
   \<and> map_option (\<lambda>f. f W H w h m) (WATERMARK_POSITIONS ''br'') = Some (W - w - m, H - h - m)
   \<and> map_option (\<lambda>f. f W H w h m) (WATERMARK_POSITIONS ''center'')
       = Some ((W - w) div 2, (H - h) div 2)
   \<and> compute_position (800, 600) (100, 40) ''br'' 12 = (688, 548)
   \<and> map_option (\<lambda>f. f 800 600 100 40 12) (WATERMARK_POSITIONS ''br'') = Some (688, 548)"
  by (simp add: compute_position_def WATERMARK_POSITIONS_def)

subsection \<open>Custom placement\<close>

lemma WATERMARK_POSITIONS_br:
  "WATERMARK_POSITIONS ''br'' = Some (\<lambda>img_w img_h w h m. (img_w - w - m, img_h - h - m))"
  by (simp add: WATERMARK_POSITIONS_def)

lemma fallback_position:
  assumes "take 7 (last_position a) = ''custom_''"
      and "custom_position fl a W H w h = Inl e"
  shows "calculate_watermark_position fl a W H w h m
           = ((W - w - m, H - h - m), a\<lparr>last_position := ''br''\<rparr>)"
  using assms by (simp add: calculate_watermark_position_def WATERMARK_POSITIONS_br)

lemma custom_position_fails:
  assumes "length (split_on CHR ''_'' (last_position a)) \<noteq> 3
           \<or> preview_label_width a = 0 \<or> preview_label_height a = 0
           \<or> isl (py_int (split_on CHR ''_'' (last_position a) ! 1))
           \<or> isl (py_int (split_on CHR ''_'' (last_position a) ! 2))"
  shows "isl (custom_position fl a W H w h)"
proof (cases "length (split_on CHR ''_'' (last_position a)) = 3")
  case False
  then have "\<And>u x y. split_on CHR ''_'' (last_position a) \<noteq> [u, x, y]"
    by auto
  then show ?thesis
    by (auto simp: custom_position_def split: list.splits)
next
  case True
  then obtain u sx sy where ps: "split_on CHR ''_'' (last_position a) = [u, sx, sy]"
    by (auto simp: length_Suc_conv numeral_3_eq_3)
  with assms show ?thesis
    by (auto simp: custom_position_def py_true_div_def isl_def split: sum.splits)
qed

lemma py_int_390: "py_int ''390'' = Inr 390"
  by (simp add: py_int_def is_int_space_def is_digit_def digits_value_def)

lemma py_int_minus_4: "py_int ''-4'' = Inr (- 4)"
  by (simp add: py_int_def is_int_space_def is_digit_def digits_value_def)

lemma py_int_abc: "py_int ''abc'' = Inl ValueError"
  by (simp add: py_int_def is_int_space_def is_digit_def digits_value_def)

text \<open>
  C2. A custom tag that unpacks into three pieces, with a non-zero preview size, whose
  two coordinates parse and scale to \<open>mx\<close> and \<open>my\<close>, resolves to
  \<open>(max 0 (min mx (W - w)), max 0 (min my (H - h)))\<close> and leaves the state alone:
  neither coordinate is negative, neither exceeds \<open>W - w\<close> or \<open>H - h\<close> when the
  watermark fits, and a coordinate is 0 when the watermark is larger than the image on
  that axis.
\<close>

theorem C2_custom_clamped:
  assumes "take 7 (last_position a) = ''custom_''"
      and "split_on CHR ''_'' (last_position a) = [u, sx, sy]"
      and "py_true_div fl W (preview_label_width a) = Inr scale_x"
      and "py_true_div fl H (preview_label_height a) = Inr scale_y"
      and "py_int sx = Inr px" and "mul_trunc fl px scale_x = Inr mx"
      and "py_int sy = Inr py" and "mul_trunc fl py scale_y = Inr my"
  shows "\<exists>x y. calculate_watermark_position fl a W H w h m = ((x, y), a)
           \<and> x = max 0 (min mx (W - w)) \<and> y = max 0 (min my (H - h))
           \<and> 0 \<le> x \<and> 0 \<le> y
           \<and> (w \<le> W \<longrightarrow> x \<le> W - w) \<and> (h \<le> H \<longrightarrow> y \<le> H - h)
           \<and> (W < w \<longrightarrow> x = 0) \<and> (H < h \<longrightarrow> y = 0)"
  using assms by (simp add: calculate_watermark_position_def custom_position_def)

theorem C2_custom_clamped_witness:
  "calculate_watermark_position exact_ops (initial_app\<lparr>last_position := ''custom_390_-4''\<rparr>)
      800 600 100 40 12
     = ((700, 0), initial_app\<lparr>last_position := ''custom_390_-4''\<rparr>)"
proof -
  let ?a = "initial_app\<lparr>last_position := ''custom_390_-4''\<rparr>"
  have h1: "take 7 (last_position ?a) = ''custom_''" by simp
  have h2: "split_on CHR ''_'' (last_position ?a) = [''custom'', ''390'', ''-4'']" by simp
  have h3: "py_true_div exact_ops 800 (preview_label_width ?a) = Inr 2"
    by (simp add: py_true_div_def exact_ops_def initial_app_def)
  have h4: "py_true_div exact_ops 600 (preview_label_height ?a) = Inr 2"
    by (simp add: py_true_div_def exact_ops_def initial_app_def)
  have h5: "mul_trunc exact_ops 390 2 = Inr 780" by (simp add: exact_ops_def)
  have h6: "mul_trunc exact_ops (- 4) 2 = Inr (- 8)" by (simp add: exact_ops_def)
  from C2_custom_clamped [OF h1 h2 h3 h4 py_int_390 h5 py_int_minus_4 h6, of 100 40 12]
  show ?thesis by auto
qed

text \<open>
  C3. When the tag starts with \<open>custom_\<close> and resolving it fails (it does not unpack
  into three pieces, a coordinate is not an integer, a preview dimension is zero, or
  anything else in the \<open>try\<close> block raises), the method still returns: the
  bottom-right position \<open>(W - w - m, H - h - m)\<close> for the margin it was given, with
  \<open>last_position\<close> reset to \<open>'br'\<close>. The method's result has no exceptional value.
\<close>

theorem C3_custom_failure_falls_back:
  assumes "take 7 (last_position a) = ''custom_''"
      and "length (split_on CHR ''_'' (last_position a)) \<noteq> 3
           \<or> preview_label_width a = 0 \<or> preview_label_height a = 0
           \<or> isl (py_int (split_on CHR ''_'' (last_position a) ! 1))
           \<or> isl (py_int (split_on CHR ''_'' (last_position a) ! 2))
           \<or> isl (custom_position fl a W H w h)"
  shows "calculate_watermark_position fl a W H w h m
           = ((W - w - m, H - h - m), a\<lparr>last_position := ''br''\<rparr>)"
proof -
  from assms(2) have "isl (custom_position fl a W H w h)"
    using custom_position_fails [of a fl W H w h] by blast
  then obtain e where "custom_position fl a W H w h = Inl e"
    by (auto simp: isl_def)
  with assms(1) show ?thesis by (rule fallback_position)
qed

theorem C3_custom_failure_falls_back_witness:
  "calculate_watermark_position exact_ops (initial_app\<lparr>last_position := ''custom_abc''\<rparr>)
      800 600 100 40 12
     = ((688, 548), initial_app\<lparr>last_position := ''br''\<rparr>)
   \<and> calculate_watermark_position exact_ops
        (initial_app\<lparr>last_position := ''custom_390_10'', preview_label_width := 0\<rparr>)
        800 600 100 40 12
     = ((688, 548), initial_app\<lparr>last_position := ''br'', preview_label_width := 0\<rparr>)
   \<and> calculate_watermark_position exact_ops (initial_app\<lparr>last_position := ''custom_abc_7''\<rparr>)
      800 600 100 40 12
     = ((688, 548), initial_app\<lparr>last_position := ''br''\<rparr>)"
proof -
  let ?a = "initial_app\<lparr>last_position := ''custom_abc''\<rparr>"
  let ?b = "initial_app\<lparr>last_position := ''custom_390_10'', preview_label_width := 0\<rparr>"
  let ?c = "initial_app\<lparr>last_position := ''custom_abc_7''\<rparr>"
  have a1: "take 7 (last_position ?a) = ''custom_''" by simp
  have a2: "length (split_on CHR ''_'' (last_position ?a)) \<noteq> 3" by simp
  have b1: "take 7 (last_position ?b) = ''custom_''" by simp
  have b2: "preview_label_width ?b = 0" by simp
  have c1: "take 7 (last_position ?c) = ''custom_''" by simp
  have c2: "isl (py_int (split_on CHR ''_'' (last_position ?c) ! 1))"
    by (simp add: py_int_abc)
  have "calculate_watermark_position exact_ops ?a 800 600 100 40 12
          = ((688, 548), initial_app\<lparr>last_position := ''br''\<rparr>)"
    using C3_custom_failure_falls_back [OF a1, of exact_ops 800 600 100 40 12] a2 by simp
  moreover have "calculate_watermark_position exact_ops ?b 800 600 100 40 12
          = ((688, 548), initial_app\<lparr>last_position := ''br'', preview_label_width := 0\<rparr>)"
    using C3_custom_failure_falls_back [OF b1, of exact_ops 800 600 100 40 12] b2 by simp
  moreover have "calculate_watermark_position exact_ops ?c 800 600 100 40 12
          = ((688, 548), initial_app\<lparr>last_position := ''br''\<rparr>)"
    using C3_custom_failure_falls_back [OF c1, of exact_ops 800 600 100 40 12] c2 by simp
  ultimately show ?thesis by simp
qed

subsection \<open>EXIF date\<close>

lemma split_on_hd: "\<exists>r. split_on c s = takeWhile (\<lambda>x. x \<noteq> c) s # r"
  by (induction s) (auto split: list.splits)

lemma date_of_str_eq:
  "date_of_str lib v
     = Some (replace_char CHR '':'' CHR ''-'' (takeWhile (\<lambda>x. x \<noteq> CHR '' '') (strip v)))"
proof -
  obtain r where
    "split_on CHR '' '' (strip v) = takeWhile (\<lambda>x. x \<noteq> CHR '' '') (strip v) # r"
    using split_on_hd by blast
  then show ?thesis
    by (simp add: date_of_str_def Let_def split: sum.splits)
qed

lemma scan_tags_absent:
  "map_of ex tag = None \<Longrightarrow> scan_tags lib ex (tag # tags) = scan_tags lib ex tags"
  by simp

lemma scan_tags_falsy:
  "map_of ex tag = Some v \<Longrightarrow> \<not> truthy v
     \<Longrightarrow> scan_tags lib ex (tag # tags) = scan_tags lib ex tags"
  by simp

lemma scan_tags_str:
  "map_of ex tag = Some (VStr s) \<Longrightarrow> s \<noteq> []
     \<Longrightarrow> scan_tags lib ex (tag # tags)
           = Some (replace_char CHR '':'' CHR ''-''
                     (takeWhile (\<lambda>x. x \<noteq> CHR '' '') (strip s)))"
  by (simp add: date_of_str_eq)

lemma scan_tags_bytes:
  "map_of ex tag = Some (VBytes b) \<Longrightarrow> b \<noteq> [] \<Longrightarrow> decode_utf8_ignore lib b = Inr s
     \<Longrightarrow> scan_tags lib ex (tag # tags)
           = Some (replace_char CHR '':'' CHR ''-''
                     (takeWhile (\<lambda>x. x \<noteq> CHR '' '') (strip s)))"
  by (simp add: date_of_str_eq)

lemma scan_tags_strptime:
  "scan_tags (lib\<lparr>strptime := f\<rparr>) ex tags = scan_tags lib ex tags"
  by (induction tags) (auto simp: date_of_str_eq split: option.splits exif_value.splits sum.splits)

text \<open>
  C4 as the specification words it fails on a value whose date and time are separated
  by a tab: the source splits at the space character only, so the whole value is the
  first piece and every colon in it becomes a hyphen, where the first
  white-space-delimited token is the date alone.
\<close>

theorem C4_whitespace_token_counterexample:
  "extract_exif_date example_pil
     [(EXIF_TAG_DATETIME_ORIGINAL, VStr (''2023:11:05'' @ [CHR 0x09] @ ''14:22:10''))]
     = Some (''2023-11-05'' @ [CHR 0x09] @ ''14-22-10'')
   \<and> spec_first_token_date (''2023:11:05'' @ [CHR 0x09] @ ''14:22:10'') = ''2023-11-05''
   \<and> extract_exif_date example_pil
       [(EXIF_TAG_DATETIME_ORIGINAL, VStr (''2023:11:05'' @ [CHR 0x09] @ ''14:22:10''))]
     \<noteq> Some (spec_first_token_date (''2023:11:05'' @ [CHR 0x09] @ ''14:22:10''))"
  by (simp add: extract_exif_date_def example_pil_def date_of_str_eq strip_def is_space_def
        replace_char_def spec_first_token_date_def)

text \<open>
  C4, amended. With a readable EXIF block, \<open>extract_exif_date\<close> looks at
  DateTimeOriginal, DateTimeDigitized and DateTime in that order, and for the first of
  them that holds a non-empty string (the earlier ones being absent) returns the text
  before the first space character of the value stripped of surrounding white space,
  every colon replaced by a hyphen; \<open>2023:11:05 14:22:10\<close> gives \<open>2023-11-05\<close>. The
  result does not depend on whether \<open>strptime\<close> accepts the value. With all three tags
  absent the result is \<open>None\<close>.
\<close>

theorem C4_exif_date_priority:
  assumes "getexif lib im = Inr ex"
  shows "(\<forall>s. map_of ex EXIF_TAG_DATETIME_ORIGINAL = Some (VStr s) \<and> s \<noteq> []
            \<longrightarrow> extract_exif_date lib im
                  = Some (replace_char CHR '':'' CHR ''-''
                            (takeWhile (\<lambda>x. x \<noteq> CHR '' '') (strip s))))
       \<and> (\<forall>s. map_of ex EXIF_TAG_DATETIME_ORIGINAL = None
              \<and> map_of ex EXIF_TAG_DATETIME_DIGITIZED = Some (VStr s) \<and> s \<noteq> []
            \<longrightarrow> extract_exif_date lib im
                  = Some (replace_char CHR '':'' CHR ''-''
                            (takeWhile (\<lambda>x. x \<noteq> CHR '' '') (strip s))))
       \<and> (\<forall>s. map_of ex EXIF_TAG_DATETIME_ORIGINAL = None
              \<and> map_of ex EXIF_TAG_DATETIME_DIGITIZED = None
              \<and> map_of ex EXIF_TAG_DATETIME = Some (VStr s) \<and> s \<noteq> []
            \<longrightarrow> extract_exif_date lib im
                  = Some (replace_char CHR '':'' CHR ''-''
                            (takeWhile (\<lambda>x. x \<noteq> CHR '' '') (strip s))))
       \<and> (map_of ex EXIF_TAG_DATETIME_ORIGINAL = None
              \<and> map_of ex EXIF_TAG_DATETIME_DIGITIZED = None
              \<and> map_of ex EXIF_TAG_DATETIME = None
            \<longrightarrow> extract_exif_date lib im = None)
       \<and> extract_exif_date (lib\<lparr>strptime := (\<lambda>s f. Inl ValueError)\<rparr>) im
           = extract_exif_date lib im
       \<and> replace_char CHR '':'' CHR ''-''
           (takeWhile (\<lambda>x. x \<noteq> CHR '' '') (strip ''2023:11:05 14:22:10'')) = ''2023-11-05''"
proof -
  have ex: "extract_exif_date lib im
              = (if ex = [] then None
                 else scan_tags lib ex [EXIF_TAG_DATETIME_ORIGINAL,
                        EXIF_TAG_DATETIME_DIGITIZED, EXIF_TAG_DATETIME])"
    using assms by (simp add: extract_exif_date_def)
  have c1: "map_of ex EXIF_TAG_DATETIME_ORIGINAL = Some (VStr s) \<and> s \<noteq> []
            \<longrightarrow> extract_exif_date lib im
                  = Some (replace_char CHR '':'' CHR ''-''
                            (takeWhile (\<lambda>x. x \<noteq> CHR '' '') (strip s)))" for s
    by (auto simp: ex scan_tags_str simp del: scan_tags.simps)
  have c2: "map_of ex EXIF_TAG_DATETIME_ORIGINAL = None
              \<and> map_of ex EXIF_TAG_DATETIME_DIGITIZED = Some (VStr s) \<and> s \<noteq> []
            \<longrightarrow> extract_exif_date lib im
                  = Some (replace_char CHR '':'' CHR ''-''
                            (takeWhile (\<lambda>x. x \<noteq> CHR '' '') (strip s)))" for s
    by (auto simp: ex scan_tags_str scan_tags_absent simp del: scan_tags.simps)
  have c3: "map_of ex EXIF_TAG_DATETIME_ORIGINAL = None
              \<and> map_of ex EXIF_TAG_DATETIME_DIGITIZED = None
              \<and> map_of ex EXIF_TAG_DATETIME = Some (VStr s) \<and> s \<noteq> []
            \<longrightarrow> extract_exif_date lib im
                  = Some (replace_char CHR '':'' CHR ''-''
                            (takeWhile (\<lambda>x. x \<noteq> CHR '' '') (strip s)))" for s
    by (auto simp: ex scan_tags_str scan_tags_absent simp del: scan_tags.simps)
  have c4: "map_of ex EXIF_TAG_DATETIME_ORIGINAL = None
              \<and> map_of ex EXIF_TAG_DATETIME_DIGITIZED = None
              \<and> map_of ex EXIF_TAG_DATETIME = None
            \<longrightarrow> extract_exif_date lib im = None"
    by (simp add: ex)
  have c5: "extract_exif_date (lib\<lparr>strptime := (\<lambda>s f. Inl ValueError)\<rparr>) im
              = extract_exif_date lib im"
    by (simp add: extract_exif_date_def scan_tags_strptime del: scan_tags.simps split: sum.splits)
  have c6: "replace_char CHR '':'' CHR ''-''
              (takeWhile (\<lambda>x. x \<noteq> CHR '' '') (strip ''2023:11:05 14:22:10'')) = ''2023-11-05''"
    by (simp add: strip_def is_space_def replace_char_def)
  from c1 c2 c3 c4 c5 c6 show ?thesis by blast
qed

theorem C4_exif_date_priority_witness:
  "extract_exif_date example_pil
     [(EXIF_TAG_DATETIME_DIGITIZED, VStr ''2023:11:05 14:22:10''),
      (EXIF_TAG_DATETIME, VStr ''1999:01:02 03:04:05'')] = Some ''2023-11-05''
   \<and> extract_exif_date example_pil [(EXIF_TAG_DATETIME, VStr ''2023-11-05'')]
       = Some ''2023-11-05''
   \<and> extract_exif_date example_pil [(271, VStr ''Camera'')] = None"
proof -
  let ?e1 = "[(EXIF_TAG_DATETIME_DIGITIZED, VStr ''2023:11:05 14:22:10''),
              (EXIF_TAG_DATETIME, VStr ''1999:01:02 03:04:05'')]"
  let ?e2 = "[(EXIF_TAG_DATETIME, VStr ''2023-11-05'')]"
  let ?e3 = "[(271, VStr ''Camera'')]"
  have g: "getexif example_pil e = Inr e" for e
    by (simp add: example_pil_def)
  have tags: "EXIF_TAG_DATETIME_ORIGINAL \<noteq> EXIF_TAG_DATETIME_DIGITIZED"
    "EXIF_TAG_DATETIME_ORIGINAL \<noteq> EXIF_TAG_DATETIME"
    "EXIF_TAG_DATETIME_DIGITIZED \<noteq> EXIF_TAG_DATETIME"
    "EXIF_TAG_DATETIME_ORIGINAL \<noteq> 271" "EXIF_TAG_DATETIME_DIGITIZED \<noteq> 271"
    "EXIF_TAG_DATETIME \<noteq> 271"
    by (simp_all add: EXIF_TAG_DATETIME_ORIGINAL_def EXIF_TAG_DATETIME_DIGITIZED_def
          EXIF_TAG_DATETIME_def)
  have d: "replace_char CHR '':'' CHR ''-''
             (takeWhile (\<lambda>x. x \<noteq> CHR '' '') (strip ''2023-11-05'')) = ''2023-11-05''"
    by (simp add: strip_def is_space_def replace_char_def)
  have "extract_exif_date example_pil ?e1 = Some ''2023-11-05''"
    using C4_exif_date_priority [OF g [of ?e1]] tags by simp
  moreover have "extract_exif_date example_pil ?e2 = Some ''2023-11-05''"
    using C4_exif_date_priority [OF g [of ?e2]] tags d by simp
  moreover have "extract_exif_date example_pil ?e3 = None"
    using C4_exif_date_priority [OF g [of ?e3]] tags by simp
  ultimately show ?thesis by simp
qed

lemma scan_tags_skipped:
  assumes "tag_skipped lib ex t"
  shows "scan_tags lib ex (t # ts) = scan_tags lib ex ts"
  using assms by (auto split: option.splits exif_value.splits sum.splits)

lemma scan_tags_text:
  assumes "tag_text lib ex t s"
  shows "scan_tags lib ex (t # ts)
           = Some (replace_char CHR '':'' CHR ''-''
                     (takeWhile (\<lambda>x. x \<noteq> CHR '' '') (strip s)))"
  using assms by (auto simp: date_of_str_eq)

lemma scan_tags_all_skipped:
  assumes "\<forall>t\<in>set ts. tag_skipped lib ex t"
  shows "scan_tags lib ex ts = None"
  using assms
proof (induction ts)
  case Nil
  show ?case by simp
next
  case (Cons t ts)
  then have "tag_skipped lib ex t" and "\<forall>u\<in>set ts. tag_skipped lib ex u"
    by simp_all
  then show ?case
    using Cons.IH scan_tags_skipped [of ex t lib ts] by simp
qed

lemma scan_tags_first_text:
  assumes "\<forall>t\<in>set pre. tag_skipped lib ex t" and "tag_text lib ex tag s"
  shows "scan_tags lib ex (pre @ tag # post)
           = Some (replace_char CHR '':'' CHR ''-''
                     (takeWhile (\<lambda>x. x \<noteq> CHR '' '') (strip s)))"
  using assms(1)
proof (induction pre)
  case Nil
  show ?case
    using scan_tags_text [OF assms(2)] by simp
next
  case (Cons t pre)
  then have "tag_skipped lib ex t" and "\<forall>u\<in>set pre. tag_skipped lib ex u"
    by simp_all
  then show ?case
    using Cons.IH scan_tags_skipped [of ex t lib "pre @ tag # post"] by simp
qed

lemma tag_skipped_or_text: "tag_skipped lib ex t \<or> (\<exists>s. tag_text lib ex t s)"
proof (cases "map_of ex t")
  case None
  then show ?thesis by simp
next
  case (Some v)
  show ?thesis
  proof (cases v)
    case (VStr s)
    with Some show ?thesis by (cases "s = []") auto
  next
    case (VBytes b)
    with Some show ?thesis
      by (cases "b = []"; cases "decode_utf8_ignore lib b") auto
  next
    case (VInt n)
    with Some show ?thesis by simp
  next
    case (VTuple xs)
    with Some show ?thesis by simp
  qed
qed

text \<open>
  C9. \<open>extract_exif_date\<close> always returns a string or \<open>None\<close>: every operation in it
  that can raise (\<open>getexif\<close>, \<open>decode\<close>, \<open>strptime\<close>) sits under a handler, so the
  model has no exceptional result, and the cases below cover every input. An
  unreadable EXIF block and an empty one give \<open>None\<close>. With a readable block, a tag
  is skipped when its value is absent or false, when it is bytes whose decoding
  raises, and when it is neither text nor bytes; the result comes from the first of
  the three tags that is not skipped, whose value is then a non-empty string or
  non-empty bytes decoded to text, and is the date part of that text; when all three
  tags are skipped the result is \<open>None\<close>. Every tag is either skipped or has a text.
\<close>

theorem C9_extract_exif_date_total:
  "((\<exists>e. getexif lib im = Inl e) \<longrightarrow> extract_exif_date lib im = None)
   \<and> (getexif lib im = Inr [] \<longrightarrow> extract_exif_date lib im = None)
   \<and> (\<forall>ex pre tag post s.
         getexif lib im = Inr ex
         \<and> [EXIF_TAG_DATETIME_ORIGINAL, EXIF_TAG_DATETIME_DIGITIZED, EXIF_TAG_DATETIME]
             = pre @ tag # post
         \<and> (\<forall>t\<in>set pre. tag_skipped lib ex t)
         \<and> tag_text lib ex tag s
         \<longrightarrow> extract_exif_date lib im
               = Some (replace_char CHR '':'' CHR ''-''
                         (takeWhile (\<lambda>x. x \<noteq> CHR '' '') (strip s))))
   \<and> (\<forall>ex. getexif lib im = Inr ex
         \<and> (\<forall>t\<in>set [EXIF_TAG_DATETIME_ORIGINAL, EXIF_TAG_DATETIME_DIGITIZED,
                       EXIF_TAG_DATETIME]. tag_skipped lib ex t)
         \<longrightarrow> extract_exif_date lib im = None)
   \<and> (\<forall>ex t. tag_skipped lib ex t \<or> (\<exists>s. tag_text lib ex t s))"
proof -
  let ?tags = "[EXIF_TAG_DATETIME_ORIGINAL, EXIF_TAG_DATETIME_DIGITIZED, EXIF_TAG_DATETIME]"
  have a: "(\<exists>e. getexif lib im = Inl e) \<longrightarrow> extract_exif_date lib im = None"
    by (auto simp: extract_exif_date_def)
  have b: "getexif lib im = Inr [] \<longrightarrow> extract_exif_date lib im = None"
    by (simp add: extract_exif_date_def)
  have c: "extract_exif_date lib im
               = Some (replace_char CHR '':'' CHR ''-''
                         (takeWhile (\<lambda>x. x \<noteq> CHR '' '') (strip s)))"
    if g: "getexif lib im = Inr ex" and sp: "?tags = pre @ tag # post"
      and sk: "\<forall>t\<in>set pre. tag_skipped lib ex t" and tx: "tag_text lib ex tag s"
    for ex pre tag post s
  proof -
    from tx have "ex \<noteq> []" by auto
    with g have "extract_exif_date lib im = scan_tags lib ex ?tags"
      by (simp add: extract_exif_date_def del: scan_tags.simps)
    also have "\<dots> = scan_tags lib ex (pre @ tag # post)"
      by (simp only: sp)
    also have "\<dots> = Some (replace_char CHR '':'' CHR ''-''
                         (takeWhile (\<lambda>x. x \<noteq> CHR '' '') (strip s)))"
      by (rule scan_tags_first_text [OF sk tx])
    finally show ?thesis .
  qed
  have d: "extract_exif_date lib im = None"
    if g: "getexif lib im = Inr ex" and sk: "\<forall>t\<in>set ?tags. tag_skipped lib ex t" for ex
    using g scan_tags_all_skipped [OF sk]
    by (simp add: extract_exif_date_def del: scan_tags.simps)
  have e: "tag_skipped lib ex t \<or> (\<exists>s. tag_text lib ex t s)" for ex t
    by (rule tag_skipped_or_text)
  show ?thesis
    apply (intro conjI allI impI)
    subgoal by (rule a [rule_format])
    subgoal by (rule b [rule_format])
    subgoal for ex pre tag post s by (rule c [of ex pre tag post s]) blast+
    subgoal for ex by (rule d [of ex]) blast+
    subgoal for ex t by (rule e)
    done
qed

theorem C9_extract_exif_date_total_witness:
  "extract_exif_date example_pil
     [(EXIF_TAG_DATETIME_ORIGINAL, VInt 3),
      (EXIF_TAG_DATETIME_DIGITIZED, VStr []),
      (EXIF_TAG_DATETIME, VBytes [50, 48, 50, 51, 58, 49, 49, 58, 48, 53, 255])]
     = Some ''2023-11-05''
   \<and> extract_exif_date (example_pil\<lparr>decode_utf8_ignore := (\<lambda>b. Inl ValueError)\<rparr>)
       [(EXIF_TAG_DATETIME_ORIGINAL, VBytes [50, 48]),
        (EXIF_TAG_DATETIME, VStr ''2023:11:05 14:22:10'')]
     = Some ''2023-11-05''
   \<and> extract_exif_date example_pil [(EXIF_TAG_DATETIME_ORIGINAL, VTuple [1, 2])] = None
   \<and> extract_exif_date example_pil [] = None
   \<and> extract_exif_date (example_pil\<lparr>getexif := (\<lambda>im. Inl OSError)\<rparr>) [] = None"
proof -
  let ?O = EXIF_TAG_DATETIME_ORIGINAL
  let ?D = EXIF_TAG_DATETIME_DIGITIZED
  let ?T = EXIF_TAG_DATETIME
  let ?e1 = "[(?O, VInt 3), (?D, VStr []),
              (?T, VBytes [50, 48, 50, 51, 58, 49, 49, 58, 48, 53, 255])]"
  let ?l2 = "example_pil\<lparr>decode_utf8_ignore := (\<lambda>b. Inl ValueError)\<rparr>"
  let ?e2 = "[(?O, VBytes [50, 48]), (?T, VStr ''2023:11:05 14:22:10'')]"
  let ?e3 = "[(?O, VTuple [1, 2])]"
  let ?l5 = "example_pil\<lparr>getexif := (\<lambda>im. Inl OSError)\<rparr>"
  have tags: "?O \<noteq> ?D" "?O \<noteq> ?T" "?D \<noteq> ?T" "?D \<noteq> ?O" "?T \<noteq> ?O" "?T \<noteq> ?D"
    by (simp_all add: EXIF_TAG_DATETIME_ORIGINAL_def EXIF_TAG_DATETIME_DIGITIZED_def
          EXIF_TAG_DATETIME_def)
  have g1: "getexif example_pil e = Inr e" for e
    by (simp add: example_pil_def)
  have g2: "getexif ?l2 e = Inr e" for e
    by (simp add: example_pil_def)
  have dec: "decode_utf8_ignore example_pil [50, 48, 50, 51, 58, 49, 49, 58, 48, 53, 255]
               = Inr ''2023:11:05''"
    by code_simp
  have date1: "replace_char CHR '':'' CHR ''-''
                (takeWhile (\<lambda>x. x \<noteq> CHR '' '') (strip ''2023:11:05'')) = ''2023-11-05''"
    by (simp add: strip_def is_space_def replace_char_def)
  have date2: "replace_char CHR '':'' CHR ''-''
         (takeWhile (\<lambda>x. x \<noteq> CHR '' '') (strip ''2023:11:05 14:22:10'')) = ''2023-11-05''"
    by (simp add: strip_def is_space_def replace_char_def)
  have sp: "[?O, ?D, ?T] = [?O, ?D] @ ?T # []"
    by simp
  have sk1: "\<forall>t\<in>set [?O, ?D]. tag_skipped example_pil ?e1 t"
    using tags by simp
  have tx1: "tag_text example_pil ?e1 ?T ''2023:11:05''"
    using tags dec by simp
  have r1: "extract_exif_date example_pil ?e1
              = Some (replace_char CHR '':'' CHR ''-''
                        (takeWhile (\<lambda>x. x \<noteq> CHR '' '') (strip ''2023:11:05'')))"
    by (rule C9_extract_exif_date_total
              [of example_pil ?e1, THEN conjunct2, THEN conjunct2, THEN conjunct1,
               rule_format, of ?e1 "[?O, ?D]" ?T "[]" "''2023:11:05''"])
       (intro conjI g1 sp sk1 tx1)
  have sk2: "\<forall>t\<in>set [?O, ?D]. tag_skipped ?l2 ?e2 t"
    using tags by simp
  have tx2: "tag_text ?l2 ?e2 ?T ''2023:11:05 14:22:10''"
    using tags by simp
  have r2: "extract_exif_date ?l2 ?e2
              = Some (replace_char CHR '':'' CHR ''-''
                        (takeWhile (\<lambda>x. x \<noteq> CHR '' '') (strip ''2023:11:05 14:22:10'')))"
    by (rule C9_extract_exif_date_total
              [of ?l2 ?e2, THEN conjunct2, THEN conjunct2, THEN conjunct1,
               rule_format, of ?e2 "[?O, ?D]" ?T "[]" "''2023:11:05 14:22:10''"])
       (intro conjI g2 sp sk2 tx2)
  have sk3: "\<forall>t\<in>set [?O, ?D, ?T]. tag_skipped example_pil ?e3 t"
    using tags by simp
  have r3: "extract_exif_date example_pil ?e3 = None"
    by (rule C9_extract_exif_date_total
              [of example_pil ?e3, THEN conjunct2, THEN conjunct2, THEN conjunct2,
               THEN conjunct1, rule_format, of ?e3])
       (intro conjI g1 sk3)
  have r4: "extract_exif_date example_pil [] = None"
    by (rule C9_extract_exif_date_total
              [of example_pil "[]", THEN conjunct2, THEN conjunct1, rule_format])
       (rule g1)
  have g5: "\<exists>e. getexif ?l5 [] = Inl e"
    by simp
  have r5: "extract_exif_date ?l5 [] = None"
    by (rule C9_extract_exif_date_total [of ?l5 "[]", THEN conjunct1, rule_format])
       (rule g5)
  from r1 r2 r3 r4 r5 date1 date2 show ?thesis
    by (simp only: simp_thms)
qed

subsection \<open>Output names\<close>

lemma rfind_last_dot:
  assumes "CHR ''.'' \<notin> set e"
  shows "rfind CHR ''.'' (s @ CHR ''.'' # e) = int (length s)"
proof -
  have "takeWhile (\<lambda>x. x \<noteq> CHR ''.'') (rev e @ CHR ''.'' # rev s) = rev e"
    using assms by (auto simp: takeWhile_tail)
  then show ?thesis
    by (simp add: rfind_def)
qed

lemma stem_of_name:
  assumes "s \<noteq> []" and "e \<noteq> []" and "CHR ''.'' \<notin> set e"
  shows "stem (d @ [s @ CHR ''.'' # e]) = s"
  using assms by (simp add: stem_def name_def rfind_last_dot Let_def)

text \<open>
  C6. The output name is \<open>stem + ext\<close> when the keep box is checked,
  \<open>prefix + stem + ext\<close> when the prefix box decides, \<open>stem + suffix + ext\<close> when the
  suffix box decides; \<open>ext\<close> is \<open>.png\<close> when the format text contains \<open>PNG\<close> and
  \<open>.jpg\<close> otherwise, so the two entries of the format box give \<open>.jpg\<close> and \<open>.png\<close>;
  and a source named \<open>photo.e\<close>, whatever the extension \<open>e\<close>, with prefix \<open>wm_\<close> and
  the JPEG format, is written as \<open>wm_photo.jpg\<close>.
\<close>

theorem C6_output_filename:
  "(keep_name_radio a \<longrightarrow>
      get_output_filename a p
        = stem p @ (if contains ''PNG'' (output_format_combo a) then ''.png'' else ''.jpg''))
   \<and> (\<not> keep_name_radio a \<and> add_prefix_radio a \<longrightarrow>
      get_output_filename a p
        = prefix_edit a @ stem p
            @ (if contains ''PNG'' (output_format_combo a) then ''.png'' else ''.jpg''))
   \<and> (\<not> keep_name_radio a \<and> \<not> add_prefix_radio a \<and> add_suffix_radio a \<longrightarrow>
      get_output_filename a p
        = stem p @ suffix_edit a
            @ (if contains ''PNG'' (output_format_combo a) then ''.png'' else ''.jpg''))
   \<and> contains ''PNG'' ''PNG (*.png)'' \<and> \<not> contains ''PNG'' ''JPEG (*.jpg)''
   \<and> (s \<noteq> [] \<and> e \<noteq> [] \<and> CHR ''.'' \<notin> set e \<longrightarrow> stem (d @ [s @ CHR ''.'' # e]) = s)
   \<and> (e \<noteq> [] \<and> CHR ''.'' \<notin> set e \<longrightarrow>
      get_output_filename
        (a\<lparr>keep_name_radio := False, add_prefix_radio := True, prefix_edit := ''wm_'',
           output_format_combo := ''JPEG (*.jpg)''\<rparr>)
        (d @ [''photo'' @ CHR ''.'' # e]) = ''wm_photo.jpg'')"
proof -
  have st: "e \<noteq> [] \<and> CHR ''.'' \<notin> set e \<longrightarrow> stem (d @ [''photo'' @ CHR ''.'' # e]) = ''photo''"
    using stem_of_name [of "''photo''" e d] by simp
  have g: "s \<noteq> [] \<and> e \<noteq> [] \<and> CHR ''.'' \<notin> set e \<longrightarrow> stem (d @ [s @ CHR ''.'' # e]) = s"
    using stem_of_name [of s e d] by simp
  have ex: "e \<noteq> [] \<and> CHR ''.'' \<notin> set e \<longrightarrow>
      get_output_filename
        (a\<lparr>keep_name_radio := False, add_prefix_radio := True, prefix_edit := ''wm_'',
           output_format_combo := ''JPEG (*.jpg)''\<rparr>)
        (d @ [''photo'' @ CHR ''.'' # e]) = ''wm_photo.jpg''"
    using st by (simp add: get_output_filename_def Let_def)
  have fmt: "contains ''PNG'' ''PNG (*.png)'' \<and> \<not> contains ''PNG'' ''JPEG (*.jpg)''"
    by simp
  from g ex fmt show ?thesis
    by (simp add: get_output_filename_def Let_def)
qed

theorem C6_output_filename_witness:
  "get_output_filename
     (initial_app\<lparr>keep_name_radio := False, add_prefix_radio := True\<rparr>)
     [''home'', ''pics'', ''photo.PNG''] = ''wm_photo.jpg''
   \<and> get_output_filename initial_app [''photo.tiff''] = ''photo.jpg''
   \<and> get_output_filename
       (initial_app\<lparr>keep_name_radio := False, add_suffix_radio := True,
          output_format_combo := ''PNG (*.png)''\<rparr>)
       [''photo.jpeg''] = ''photo_watermarked.png''"
proof -
  let ?a = "initial_app\<lparr>keep_name_radio := False, add_prefix_radio := True\<rparr>"
  let ?b = "initial_app\<lparr>keep_name_radio := False, add_suffix_radio := True,
          output_format_combo := ''PNG (*.png)''\<rparr>"
  have a: "?a\<lparr>keep_name_radio := False, add_prefix_radio := True, prefix_edit := ''wm_'',
           output_format_combo := ''JPEG (*.jpg)''\<rparr> = ?a"
    by (simp add: initial_app_def)
  have "get_output_filename ?a [''home'', ''pics'', ''photo.PNG''] = ''wm_photo.jpg''"
    using C6_output_filename [of ?a "[]" "[]" "''PNG''" "[''home'', ''pics'']"] a by simp
  moreover have "get_output_filename initial_app [''photo.tiff''] = ''photo.jpg''"
    using C6_output_filename [of initial_app "[''photo.tiff'']" "''photo''" "''tiff''" "[]"]
    by (simp add: initial_app_def)
  moreover have "get_output_filename ?b [''photo.jpeg''] = ''photo_watermarked.png''"
    using C6_output_filename [of ?b "[''photo.jpeg'']" "''photo''" "''jpeg''" "[]"]
    by (simp add: initial_app_def)
  ultimately show ?thesis by simp
qed

subsection \<open>Listing the input files\<close>

lemma is_dir_not_is_file: "is_dir fs p \<Longrightarrow> \<not> is_file fs p"
  by (simp add: is_dir_def is_file_def)

lemma is_file_listed: "is_file fs q \<Longrightarrow> q \<in> fst ` set fs"
  by (auto simp: is_file_def node_at_def split: if_splits dest: map_of_SomeD intro: rev_image_eqI)

lemma is_file_nonempty: "is_file fs q \<Longrightarrow> q \<noteq> []"
  by (auto simp: is_file_def node_at_def)

lemma set_iterdir: "set (iterdir fs p) = {q. q \<in> fst ` set fs \<and> q \<noteq> [] \<and> parent q = p}"
  by (auto simp: iterdir_def)

lemma distinct_iterdir: "distinct (iterdir fs p)"
  by (simp add: iterdir_def)

lemma iter_image_files_dir:
  assumes "is_dir fs p"
  shows "iter_image_files fs p
           = filter (\<lambda>q. is_file fs q \<and> lower (suffix q) \<in> set SUPPORTED_EXTENSIONS)
               (sort (iterdir fs p))"
  using assms by (simp add: iter_image_files_def is_dir_not_is_file)

lemma grandchild_not_child: "parent (p @ [d, f]) \<noteq> p"
  by (simp add: parent_def butlast_append)

text \<open>
  C10. For a directory, \<open>iter_image_files\<close> yields exactly the entries of that
  directory (paths whose parent it is, so nothing from a subdirectory) that are regular
  files and whose lower-cased suffix is a supported extension, each once, in ascending
  path order; for a regular file it yields the file alone if its lower-cased suffix is
  supported and nothing otherwise.
\<close>

theorem C10_iter_image_files:
  "(is_dir fs p \<longrightarrow>
      set (iter_image_files fs p)
        = {q. parent q = p \<and> is_file fs q \<and> lower (suffix q) \<in> set SUPPORTED_EXTENSIONS}
      \<and> sorted (iter_image_files fs p) \<and> distinct (iter_image_files fs p)
      \<and> p @ [d, f] \<notin> set (iter_image_files fs p))
   \<and> (is_file fs p \<and> lower (suffix p) \<notin> set SUPPORTED_EXTENSIONS \<longrightarrow> iter_image_files fs p = [])
   \<and> (is_file fs p \<and> lower (suffix p) \<in> set SUPPORTED_EXTENSIONS \<longrightarrow> iter_image_files fs p = [p])"
proof -
  have dir: "set (iter_image_files fs p)
        = {q. parent q = p \<and> is_file fs q \<and> lower (suffix q) \<in> set SUPPORTED_EXTENSIONS}
      \<and> sorted (iter_image_files fs p) \<and> distinct (iter_image_files fs p)
      \<and> p @ [d, f] \<notin> set (iter_image_files fs p)" if "is_dir fs p"
  proof -
    note eq = iter_image_files_dir [OF that]
    have s: "set (iter_image_files fs p)
        = {q. parent q = p \<and> is_file fs q \<and> lower (suffix q) \<in> set SUPPORTED_EXTENSIONS}"
      unfolding eq using is_file_listed is_file_nonempty
      by (auto simp: set_iterdir)
    have o: "sorted (iter_image_files fs p)"
      unfolding eq by (rule sorted_wrt_filter) simp
    have u: "distinct (iter_image_files fs p)"
      unfolding eq by (simp add: distinct_iterdir)
    have n: "p @ [d, f] \<notin> set (iter_image_files fs p)"
      unfolding s using grandchild_not_child [of p d f] by simp
    from s o u n show ?thesis by simp
  qed
  have reg: "is_file fs p \<Longrightarrow> iter_image_files fs p
                = (if lower (suffix p) \<in> set SUPPORTED_EXTENSIONS then [p] else [])"
    by (simp add: iter_image_files_def)
  from dir reg show ?thesis by auto
qed

theorem C10_iter_image_files_witness:
  "iter_image_files trip_fs [''photos'', ''trip'']
     = [[''photos'', ''trip'', ''a.jpg''], [''photos'', ''trip'', ''b.JPG''],
        [''photos'', ''trip'', ''bad.jpg''], [''photos'', ''trip'', ''plain.png'']]
   \<and> [''photos'', ''trip'', ''sub.jpg'', ''deep.jpg'']
       \<notin> set (iter_image_files trip_fs [''photos'', ''trip''])
   \<and> iter_image_files trip_fs [''photos'', ''trip'', ''notes.txt''] = []
   \<and> iter_image_files trip_fs [''photos'', ''trip'', ''b.JPG''] = [[''photos'', ''trip'', ''b.JPG'']]"
proof -
  have d: "is_dir trip_fs [''photos'', ''trip'']"
    by (simp add: is_dir_def node_at_def trip_fs_def)
  have v: "iter_image_files trip_fs [''photos'', ''trip'']
     = [[''photos'', ''trip'', ''a.jpg''], [''photos'', ''trip'', ''b.JPG''],
        [''photos'', ''trip'', ''bad.jpg''], [''photos'', ''trip'', ''plain.png'']]"
    by code_simp
  have n: "is_file trip_fs [''photos'', ''trip'', ''notes.txt'']
           \<and> lower (suffix [''photos'', ''trip'', ''notes.txt'']) \<notin> set SUPPORTED_EXTENSIONS"
    by code_simp
  have b: "is_file trip_fs [''photos'', ''trip'', ''b.JPG'']
           \<and> lower (suffix [''photos'', ''trip'', ''b.JPG'']) \<in> set SUPPORTED_EXTENSIONS"
    by code_simp
  have "[''photos'', ''trip''] @ [''sub.jpg'', ''deep.jpg'']
          \<notin> set (iter_image_files trip_fs [''photos'', ''trip''])"
    using C10_iter_image_files [of trip_fs "[''photos'', ''trip'']" "''sub.jpg''" "''deep.jpg''"] d
    by blast
  moreover have "iter_image_files trip_fs [''photos'', ''trip'', ''notes.txt''] = []"
    using C10_iter_image_files
            [of trip_fs "[''photos'', ''trip'', ''notes.txt'']" "[]" "[]"] n
    by blast
  moreover have "iter_image_files trip_fs [''photos'', ''trip'', ''b.JPG'']
                   = [[''photos'', ''trip'', ''b.JPG'']]"
    using C10_iter_image_files
            [of trip_fs "[''photos'', ''trip'', ''b.JPG'']" "[]" "[]"] b
    by blast
  ultimately show ?thesis using v by simp
qed

subsection \<open>The output directory and the batch\<close>

declare mkdir.simps [simp del]

lemma os_mkdir_is_dir: "os_mkdir fs p = Inr fs' \<Longrightarrow> is_dir fs' p"
  by (auto simp: os_mkdir_def is_dir_def node_at_def exists_path_def
           split: if_splits option.splits node.splits)

lemma mkdir_is_dir: "mkdir fs p parents exist_ok = Inr fs' \<Longrightarrow> is_dir fs' p"
proof (induction fs p parents exist_ok arbitrary: fs' rule: mkdir.induct)
  case (1 fs p parents exist_ok)
  show ?case
  proof (cases "os_mkdir fs p")
    case (Inr fs1)
    with "1.prems" have "fs' = fs1"
      by (simp add: mkdir.simps [of fs p])
    with Inr show ?thesis
      by (simp add: os_mkdir_is_dir)
  next
    case (Inl e)
    show ?thesis
    proof (cases "e = FileNotFoundError")
      case False
      with Inl "1.prems" show ?thesis
        by (simp add: mkdir.simps [of fs p] split: if_splits)
    next
      case True
      with Inl "1.prems" obtain fs1 where
        rec: "\<not> (\<not> parents \<or> parent p = p)" "mkdir fs (parent p) True True = Inr fs1"
          "mkdir fs1 p False exist_ok = Inr fs'"
        by (auto simp: mkdir.simps [of fs p] split: if_splits sum.splits)
      from "1.IH"(2) [OF Inl True rec(1) rec(2) rec(3)] show ?thesis .
    qed
  qed
qed

lemma mkdir_blocked:
  assumes "exists_path fs p" and "\<not> is_dir fs p"
  shows "mkdir fs p parents exist_ok = Inl FileExistsError"
  using assms by (simp add: mkdir.simps [of fs p] os_mkdir_def)

lemma ensure_output_dir_result:
  assumes "ensure_output_dir fs base = Inr (out_dir, fs')" and "\<not> is_file fs base"
  shows "out_dir = base @ [name base @ ''_watermark''] \<and> is_dir fs' out_dir"
  using assms
  by (auto simp: ensure_output_dir_def Let_def mkdir_is_dir split: sum.splits)

lemma main_missing:
  "\<not> exists_path fs input_path
     \<Longrightarrow> main lib fs input_path options = (Inr 1, [InputMissing input_path], fs)"
  by (simp add: main_def)

lemma main_no_files:
  "exists_path fs input_path \<Longrightarrow> iter_image_files fs input_path = []
     \<Longrightarrow> main lib fs input_path options = (Inr 1, [NoSupportedFiles], fs)"
  by (simp add: main_def)

lemma main_mkdir_fails:
  "exists_path fs input_path \<Longrightarrow> iter_image_files fs input_path \<noteq> []
     \<Longrightarrow> ensure_output_dir fs
           (if is_dir fs input_path then input_path else parent input_path) = Inl e
     \<Longrightarrow> main lib fs input_path options = (Inl e, [], fs)"
  by (simp add: main_def)

lemma main_batch:
  "exists_path fs input_path \<Longrightarrow> iter_image_files fs input_path \<noteq> []
     \<Longrightarrow> ensure_output_dir fs
           (if is_dir fs input_path then input_path else parent input_path) = Inr (out_dir, fs')
     \<Longrightarrow> main lib fs input_path options
           = (Inr 0,
              map (\<lambda>f. process_image_file lib f options out_dir) (iter_image_files fs input_path),
              map (\<lambda>p. (p, File))
                (rev (written (map (\<lambda>f. process_image_file lib f options out_dir)
                                 (iter_image_files fs input_path)))) @ fs')"
  by (simp add: main_def Let_def)

lemma process_image_file_OK:
  "process_image_file lib f options out_dir = OK g out \<Longrightarrow> g = f \<and> out = out_dir @ [name f]"
  by (auto simp: process_image_file_def Let_def split: sum.splits option.splits if_splits)

lemma written_iff: "out \<in> set (written ls) \<longleftrightarrow> (\<exists>f. OK f out \<in> set ls)"
  by (induction ls) (auto simp: written_def split: line.splits)

lemma node_at_saved:
  assumes "q \<noteq> []"
  shows "node_at (map (\<lambda>p. (p, File)) ws @ fs) q
           = (if q \<in> set ws then Some File else node_at fs q)"
  using assms by (induction ws) (auto simp: node_at_def)

text \<open>
  C7 as stated fails where the output directory cannot be made: in a directory \<open>pics\<close>
  that holds \<open>a.jpg\<close> and a regular file named \<open>pics_watermark\<close>, the input exists and
  a supported file is found, yet \<open>mkdir\<close> raises \<open>FileExistsError\<close> out of \<open>main\<close>
  and no exit code 0 is returned.
\<close>

theorem C7_mkdir_raises_counterexample:
  "exists_path blocked_fs [''pics'']
   \<and> iter_image_files blocked_fs [''pics''] = [[''pics'', ''a.jpg'']]
   \<and> main batch_pil blocked_fs [''pics''] default_options = (Inl FileExistsError, [], blocked_fs)
   \<and> fst (main batch_pil blocked_fs [''pics''] default_options) \<noteq> Inr 0"
proof -
  have e: "exists_path blocked_fs [''pics'']"
    by (simp add: exists_path_def node_at_def blocked_fs_def)
  have f: "iter_image_files blocked_fs [''pics''] = [[''pics'', ''a.jpg'']]"
    by code_simp
  have d: "is_dir blocked_fs [''pics'']"
    by (simp add: is_dir_def node_at_def blocked_fs_def)
  have b: "exists_path blocked_fs [''pics'', ''pics_watermark'']"
      "\<not> is_dir blocked_fs [''pics'', ''pics_watermark'']"
    by (simp_all add: exists_path_def is_dir_def node_at_def blocked_fs_def)
  have "ensure_output_dir blocked_fs [''pics''] = Inl FileExistsError"
    using mkdir_blocked [OF b] d
    by (simp add: ensure_output_dir_def is_dir_not_is_file name_def)
  with e f d have "main batch_pil blocked_fs [''pics''] default_options
                     = (Inl FileExistsError, [], blocked_fs)"
    by (simp add: main_mkdir_fails)
  with e f show ?thesis by simp
qed

text \<open>
  C7, amended. \<open>main\<close> returns 1 exactly when the input path does not exist or no
  supported file is found. Otherwise it makes the output directory: if that raises,
  the exception leaves \<open>main\<close> before any file is processed; if it succeeds, \<open>main\<close>
  prints one line per file and returns 0. The exit code is the same for every
  library, that is, whatever happens to the single files.
\<close>

theorem C7_main_exit_code:
  "(fst (main lib fs input_path options) = Inr 1
      \<longleftrightarrow> \<not> exists_path fs input_path \<or> iter_image_files fs input_path = [])
   \<and> (exists_path fs input_path \<and> iter_image_files fs input_path \<noteq> [] \<longrightarrow>
        (case ensure_output_dir fs
                (if is_dir fs input_path then input_path else parent input_path) of
           Inl e \<Rightarrow> main lib fs input_path options = (Inl e, [], fs)
         | Inr (out_dir, fs') \<Rightarrow>
             fst (main lib fs input_path options) = Inr 0
             \<and> fst (snd (main lib fs input_path options))
                 = map (\<lambda>f. process_image_file lib f options out_dir)
                     (iter_image_files fs input_path)))
   \<and> fst (main lib' fs input_path options) = fst (main lib fs input_path options)"
proof -
  have a: "fst (main lib fs input_path options) = Inr 1
      \<longleftrightarrow> \<not> exists_path fs input_path \<or> iter_image_files fs input_path = []"
    by (auto simp: main_def Let_def split: sum.splits)
  have b: "exists_path fs input_path \<and> iter_image_files fs input_path \<noteq> [] \<longrightarrow>
        (case ensure_output_dir fs
                (if is_dir fs input_path then input_path else parent input_path) of
           Inl e \<Rightarrow> main lib fs input_path options = (Inl e, [], fs)
         | Inr (out_dir, fs') \<Rightarrow>
             fst (main lib fs input_path options) = Inr 0
             \<and> fst (snd (main lib fs input_path options))
                 = map (\<lambda>f. process_image_file lib f options out_dir)
                     (iter_image_files fs input_path))"
    by (auto simp: main_mkdir_fails main_batch split: sum.splits)
  have c: "fst (main lib' fs input_path options) = fst (main lib fs input_path options)"
    by (auto simp: main_def Let_def split: sum.splits)
  from a b c show ?thesis by blast
qed

theorem C7_main_exit_code_witness:
  "fst (main batch_pil trip_fs [''photos'', ''trip''] default_options) = Inr 0
   \<and> fst (snd (main batch_pil trip_fs [''photos'', ''trip''] default_options))
       = [OK [''photos'', ''trip'', ''a.jpg''] [''photos'', ''trip'', ''trip_watermark'', ''a.jpg''],
          OK [''photos'', ''trip'', ''b.JPG''] [''photos'', ''trip'', ''trip_watermark'', ''b.JPG''],
          ERROR [''photos'', ''trip'', ''bad.jpg''] UnidentifiedImageError,
          SKIP [''photos'', ''trip'', ''plain.png'']]
   \<and> fst (main batch_pil trip_fs [''photos'', ''nope''] default_options) = Inr 1
   \<and> fst (main batch_pil trip_fs [''photos'', ''trip'', ''notes.txt''] default_options) = Inr 1"
proof -
  let ?p = "[''photos'', ''trip'']"
  let ?out = "[''photos'', ''trip'', ''trip_watermark'']"
  have e: "exists_path trip_fs ?p"
    by (simp add: exists_path_def node_at_def trip_fs_def)
  have d: "is_dir trip_fs ?p"
    by (simp add: is_dir_def node_at_def trip_fs_def)
  have f: "iter_image_files trip_fs ?p
     = [[''photos'', ''trip'', ''a.jpg''], [''photos'', ''trip'', ''b.JPG''],
        [''photos'', ''trip'', ''bad.jpg''], [''photos'', ''trip'', ''plain.png'']]"
    by code_simp
  have m: "ensure_output_dir trip_fs ?p = Inr (?out, (?out, Dir) # trip_fs)"
    by code_simp
  have l: "map (\<lambda>f. process_image_file batch_pil f default_options ?out)
             [[''photos'', ''trip'', ''a.jpg''], [''photos'', ''trip'', ''b.JPG''],
              [''photos'', ''trip'', ''bad.jpg''], [''photos'', ''trip'', ''plain.png'']]
       = [OK [''photos'', ''trip'', ''a.jpg''] [''photos'', ''trip'', ''trip_watermark'', ''a.jpg''],
          OK [''photos'', ''trip'', ''b.JPG''] [''photos'', ''trip'', ''trip_watermark'', ''b.JPG''],
          ERROR [''photos'', ''trip'', ''bad.jpg''] UnidentifiedImageError,
          SKIP [''photos'', ''trip'', ''plain.png'']]"
    by code_simp
  have n: "\<not> exists_path trip_fs [''photos'', ''nope'']"
    by (simp add: exists_path_def node_at_def trip_fs_def)
  have t: "iter_image_files trip_fs [''photos'', ''trip'', ''notes.txt''] = []"
    by code_simp
  have "fst (main batch_pil trip_fs ?p default_options) = Inr 0
        \<and> fst (snd (main batch_pil trip_fs ?p default_options))
            = map (\<lambda>f. process_image_file batch_pil f default_options ?out)
                (iter_image_files trip_fs ?p)"
    using C7_main_exit_code [of batch_pil trip_fs ?p default_options batch_pil] e d f m
    by simp
  moreover have "fst (main batch_pil trip_fs [''photos'', ''nope''] default_options) = Inr 1"
    using C7_main_exit_code [of batch_pil trip_fs "[''photos'', ''nope'']" default_options batch_pil] n
    by blast
  moreover have "fst (main batch_pil trip_fs [''photos'', ''trip'', ''notes.txt''] default_options)
                   = Inr 1"
    using C7_main_exit_code
            [of batch_pil trip_fs "[''photos'', ''trip'', ''notes.txt'']" default_options batch_pil] t
    by blast
  ultimately show ?thesis using f l by simp
qed

text \<open>
  C8 as stated fails on where the directory is: for the source directory
  \<open>photos/trip\<close> the sibling named \<open>trip_watermark\<close> is \<open>photos/trip_watermark\<close>,
  but the tool writes \<open>a.jpg\<close> to \<open>photos/trip/trip_watermark/a.jpg\<close>, inside the
  source directory.
\<close>

theorem C8_sibling_directory_counterexample:
  "OK [''photos'', ''trip'', ''a.jpg''] [''photos'', ''trip'', ''trip_watermark'', ''a.jpg'']
     \<in> set (fst (snd (main batch_pil trip_fs [''photos'', ''trip''] default_options)))
   \<and> spec_sibling_dir [''photos'', ''trip''] = [''photos'', ''trip_watermark'']
   \<and> parent [''photos'', ''trip'', ''trip_watermark'', ''a.jpg'']
       \<noteq> spec_sibling_dir [''photos'', ''trip'']"
proof -
  have "fst (snd (main batch_pil trip_fs [''photos'', ''trip''] default_options))
       = [OK [''photos'', ''trip'', ''a.jpg''] [''photos'', ''trip'', ''trip_watermark'', ''a.jpg''],
          OK [''photos'', ''trip'', ''b.JPG''] [''photos'', ''trip'', ''trip_watermark'', ''b.JPG''],
          ERROR [''photos'', ''trip'', ''bad.jpg''] UnidentifiedImageError,
          SKIP [''photos'', ''trip'', ''plain.png'']]"
    by code_simp
  then show ?thesis
    by (simp add: spec_sibling_dir_def parent_def name_def)
qed

text \<open>
  C8, amended. When \<open>main\<close> returns 0 for an input whose source directory (the input
  if it is a directory, its parent otherwise) is a directory, the output directory is
  the entry of the source directory named after it with \<open>_watermark\<close> appended; it
  is a directory afterwards; and every file reported as written is one of the input
  files, saved in the output directory under the input file's name.
\<close>

theorem C8_output_directory:
  assumes "src = (if is_dir fs input_path then input_path else parent input_path)"
      and "is_dir fs src"
      and "main lib fs input_path options = (Inr 0, ls, fs_final)"
  shows "parent (src @ [name src @ ''_watermark'']) = src
       \<and> name (src @ [name src @ ''_watermark'']) = name src @ ''_watermark''
       \<and> is_dir fs_final (src @ [name src @ ''_watermark''])
       \<and> (\<forall>f out. OK f out \<in> set ls \<longrightarrow>
             f \<in> set (iter_image_files fs input_path)
             \<and> out = src @ [name src @ ''_watermark''] @ [name f]
             \<and> name out = name f
             \<and> is_file fs_final out)"
proof -
  let ?out = "src @ [name src @ ''_watermark'']"
  let ?files = "iter_image_files fs input_path"
  from assms(3) have ex: "exists_path fs input_path" and ne: "?files \<noteq> []"
    by (auto simp: main_def Let_def split: if_splits sum.splits)
  from assms(3) ex ne obtain out_dir fs' where
    ens: "ensure_output_dir fs src = Inr (out_dir, fs')"
    by (cases "ensure_output_dir fs src") (auto simp: main_mkdir_fails assms(1))
  from ensure_output_dir_result [OF ens is_dir_not_is_file [OF assms(2)]]
  have out: "out_dir = ?out" and dir: "is_dir fs' ?out"
    by auto
  from main_batch [OF ex ne, of out_dir fs' lib options] ens assms(1,3)
  have ls: "ls = map (\<lambda>f. process_image_file lib f options ?out) ?files"
    and fin: "fs_final = map (\<lambda>p. (p, File)) (rev (written ls)) @ fs'"
    by (simp_all add: out)
  have ok: "f \<in> set ?files \<and> out = ?out @ [name f]" if "OK f out \<in> set ls" for f out
    using that process_image_file_OK [of lib _ options ?out f out]
    by (auto simp: ls)
  have not_out: "?out \<notin> set (rev (written ls))"
    using ok by (auto simp: written_iff)
  have d: "is_dir fs_final ?out"
    using dir not_out by (simp add: fin is_dir_def node_at_saved)
  have w: "is_file fs_final out" if "OK f out \<in> set ls" for f out
  proof -
    from that have "out \<in> set (rev (written ls))"
      by (auto simp: written_iff)
    moreover from ok [OF that] have "out \<noteq> []" by simp
    ultimately show ?thesis
      by (simp add: fin is_file_def node_at_saved)
  qed
  have nm: "name out = name f" if "OK f out \<in> set ls" for f out
    using ok [OF that] by (simp add: name_def)
  have "parent ?out = src \<and> name ?out = name src @ ''_watermark''"
    by (simp add: parent_def name_def)
  with d ok w nm show ?thesis
    by auto
qed

theorem C8_output_directory_witness:
  "is_dir (snd (snd (main batch_pil trip_fs [''photos'', ''trip'', ''a.jpg''] default_options)))
     [''photos'', ''trip'', ''trip_watermark'']
   \<and> is_file (snd (snd (main batch_pil trip_fs [''photos'', ''trip'', ''a.jpg''] default_options)))
       [''photos'', ''trip'', ''trip_watermark'', ''a.jpg'']
   \<and> \<not> exists_path trip_fs [''photos'', ''trip'', ''trip_watermark'']"
proof -
  let ?in = "[''photos'', ''trip'', ''a.jpg'']"
  let ?src = "[''photos'', ''trip'']"
  let ?out = "[''photos'', ''trip'', ''trip_watermark'']"
  let ?ls = "[OK ?in [''photos'', ''trip'', ''trip_watermark'', ''a.jpg'']]"
  let ?fin = "snd (snd (main batch_pil trip_fs ?in default_options))"
  have s: "?src = (if is_dir trip_fs ?in then ?in else parent ?in)"
    by (simp add: is_dir_def node_at_def trip_fs_def parent_def)
  have d: "is_dir trip_fs ?src"
    by (simp add: is_dir_def node_at_def trip_fs_def)
  have r: "fst (main batch_pil trip_fs ?in default_options) = Inr 0"
    by code_simp
  have l: "fst (snd (main batch_pil trip_fs ?in default_options)) = ?ls"
    by code_simp
  have m: "main batch_pil trip_fs ?in default_options = (Inr 0, ?ls, ?fin)"
    using r l by (metis prod.collapse)
  have n: "\<not> exists_path trip_fs ?out"
    by (simp add: exists_path_def node_at_def trip_fs_def)
  from C8_output_directory [OF s d m] n show ?thesis
    by (simp add: name_def)
qed

subsection \<open>Image watermark at opacity 0\<close>

lemma DIV255_times_255:
  assumes "n < 256"
  shows "DIV255 (n * 255) = n"
proof -
  have "(n * 255 + 128) div 256 = (if n \<le> 128 then n else n - 1)"
    using assms by (simp add: div_nat_eqI)
  then show ?thesis
    using assms by (simp add: DIV255_def Let_def div_nat_eqI)
qed

lemma BLEND8_zero: "BLEND8 0 in1 in2 = in1"
proof -
  have "unat in1 < 2 ^ LENGTH(8)"
    by (rule unsigned_less)
  then have "unat in1 < 256"
    by simp
  then show ?thesis
    by (simp add: BLEND8_def DIV255_times_255)
qed

lemma blend_pixel_zero: "blend_pixel 0 p q = p"
  by (cases p; cases q) (simp add: BLEND8_zero)














end
